theory Spec2Isabelle
  imports Main "HOL-Library.Char_ord" "HOL-Library.List_Lexorder"
begin

section \<open>Strings as Python has them\<close>

text \<open>
  A Python \<open>str\<close> is modelled as a \<open>string\<close>, one \<open>char\<close> per code point; the model
  covers the code points below 256.
\<close>

definition nl :: char where
  "nl = CHR 0x0A"

text \<open>
  \<open>str.replace(old, new)\<close>: the occurrences of \<open>old\<close> are found from the left and do
  not overlap; with an empty \<open>old\<close>, \<open>new\<close> goes before every character and at the end.
\<close>

function py_replace_from :: "string \<Rightarrow> string \<Rightarrow> string \<Rightarrow> string" where
  "py_replace_from old new [] = []"
| "py_replace_from old new (c # cs) =
     (if old \<noteq> [] \<and> take (length old) (c # cs) = old
      then new @ py_replace_from old new (drop (length old - 1) cs)
      else c # py_replace_from old new cs)"
  by pat_completeness auto
termination
  by (relation "measure (\<lambda>(old, new, s). length s)") auto

definition py_replace :: "string \<Rightarrow> string \<Rightarrow> string \<Rightarrow> string" where
  "py_replace old new s =
     (if old = [] then new @ concat (map (\<lambda>c. c # new) s)
      else py_replace_from old new s)"

text \<open>
  \<open>str.lower()\<close> on the code points below 256: the ASCII capitals and the Latin-1
  capitals 0xC0 .. 0xDE (the multiplication sign 0xD7 apart) move up by 32.
\<close>

definition lower_char :: "char \<Rightarrow> char" where
  "lower_char c =
     (let n = (of_char c :: nat) in
      if (65 \<le> n \<and> n \<le> 90) \<or> (192 \<le> n \<and> n \<le> 222 \<and> n \<noteq> 215)
      then char_of (n + 32) else c)"

definition py_lower :: "string \<Rightarrow> string" where
  "py_lower s = map lower_char s"

section \<open>The query builder\<close>

text \<open>
  The parsed command line of \<open>reg.py\<close>: the four optional filters \<open>-d\<close>, \<open>-n\<close>,
  \<open>-a\<close> and \<open>-t\<close>. A flag that was not given is \<open>None\<close>.
\<close>

record args =
  d :: "string option"
  n :: "string option"
  a :: "string option"
  t :: "string option"

text \<open>Python's truth value of an optional string: \<open>None\<close> and \<open>""\<close> are false.\<close>

fun truthy :: "string option \<Rightarrow> bool" where
  "truthy None = False"
| "truthy (Some s) = (s \<noteq> [])"

definition replace_wildcards :: "string \<Rightarrow> string" where
  "replace_wildcards string =
     py_replace ''_'' ''@_'' (py_replace ''%'' ''@%'' string)"

text \<open>The body of the loop of \<open>format_args\<close>, for one attribute of the namespace.\<close>

definition format_value :: "string option \<Rightarrow> string option" where
  "format_value v =
     (if truthy v
      then Some (''%'' @ py_replace [nl] [] (py_lower (replace_wildcards (the v))) @ ''%'')
      else v)"

definition format_args :: "args \<Rightarrow> args" where
  "format_args ar =
     \<lparr> d = format_value (d ar), n = format_value (n ar),
       a = format_value (a ar), t = format_value (t ar) \<rparr>"

definition search_select :: string where
  "search_select =
     [nl] @ ''        SELECT classid, dept, coursenum, area, title'' @
     [nl] @ ''        FROM classes'' @
     [nl] @ ''        INNER JOIN courses ON classes.courseid = courses.courseid'' @
     [nl] @ ''        INNER JOIN crosslistings ON classes.courseid = crosslistings.courseid'' @
     [nl] @ ''        ''"

text \<open>The slice \<open>s[:-k]\<close> for a positive \<open>k\<close>.\<close>

definition drop_last :: "nat \<Rightarrow> string \<Rightarrow> string" where
  "drop_last k s = take (length s - k) s"

definition where_clause :: "args \<Rightarrow> string" where
  "where_clause ar =
     (let w0 = ''WHERE '';
          w1 = (if truthy (d ar) then w0 @ ''dept LIKE ? escape '' @ [CHR 0x27, CHR ''@'', CHR 0x27] @ '' AND '' else w0);
          w2 = (if truthy (n ar) then w1 @ ''coursenum LIKE ? escape '' @ [CHR 0x27, CHR ''@'', CHR 0x27] @ '' AND '' else w1);
          w3 = (if truthy (a ar) then w2 @ ''area LIKE ? escape '' @ [CHR 0x27, CHR ''@'', CHR 0x27] @ '' AND '' else w2);
          w4 = (if truthy (t ar) then w3 @ ''title LIKE ? escape '' @ [CHR 0x27, CHR ''@'', CHR 0x27] @ '' AND '' else w3)
      in if w4 \<noteq> ''WHERE '' then drop_last 5 w4 else [])"

definition get_search_query :: "args \<Rightarrow> string" where
  "get_search_query ar =
     search_select @ where_clause ar @ '' ORDER BY dept, coursenum, classid''"

text \<open>The parameter list that \<open>search\<close> builds for the prepared statement.\<close>

definition search_parameters :: "args \<Rightarrow> string list" where
  "search_parameters ar =
     (let p0 = [];
          p1 = (if truthy (d ar) then p0 @ [the (d ar)] else p0);
          p2 = (if truthy (n ar) then p1 @ [the (n ar)] else p1);
          p3 = (if truthy (a ar) then p2 @ [the (a ar)] else p2);
          p4 = (if truthy (t ar) then p3 @ [the (t ar)] else p3)
      in p4)"

subsection \<open>The list query as the specification words it\<close>

text \<open>
  The specification describes the list query as an ordered list of (column, optional
  value) pairs, filtered to the values that are present, each mapped to a parameterised
  predicate, joined with AND, with the parameters bound in the same order.
\<close>

definition like_predicate :: "string \<Rightarrow> string" where
  "like_predicate column = column @ '' LIKE ? escape '' @ [CHR 0x27, CHR ''@'', CHR 0x27]"

fun join_and :: "string list \<Rightarrow> string" where
  "join_and [] = []"
| "join_and [p] = p"
| "join_and (p # q # ps) = p @ '' AND '' @ join_and (q # ps)"

definition filter_columns :: "args \<Rightarrow> (string \<times> string option) list" where
  "filter_columns ar =
     [(''dept'', d ar), (''coursenum'', n ar), (''area'', a ar), (''title'', t ar)]"

definition provided :: "args \<Rightarrow> (string \<times> string option) list" where
  "provided ar = filter (\<lambda>(column, v). truthy v) (filter_columns ar)"

definition spec_search_query :: "args \<Rightarrow> string" where
  "spec_search_query ar =
     search_select @
     (if provided ar = [] then []
      else ''WHERE '' @ join_and (map (\<lambda>(column, v). like_predicate column) (provided ar))) @
     '' ORDER BY dept, coursenum, classid''"

definition spec_search_parameters :: "args \<Rightarrow> string list" where
  "spec_search_parameters ar = map (\<lambda>(column, v). the v) (provided ar)"

text \<open>The escape step as the specification words it: each wildcard gets the escape
  character in front of it.\<close>

definition escape_char :: "char \<Rightarrow> string" where
  "escape_char c = (if c = CHR ''%'' \<or> c = CHR ''_'' then [CHR ''@'', c] else [c])"

text \<open>An empty filter string replaced by an absent one.\<close>

fun omit_empty :: "string option \<Rightarrow> string option" where
  "omit_empty None = None"
| "omit_empty (Some s) = (if s = [] then None else Some s)"

definition omit_empty_args :: "args \<Rightarrow> args" where
  "omit_empty_args ar =
     \<lparr> d = omit_empty (d ar), n = omit_empty (n ar),
       a = omit_empty (a ar), t = omit_empty (t ar) \<rparr>"

section \<open>The pattern operator of the data store\<close>

text \<open>
  The parameters bound by \<open>search\<close> are patterns of the SQL operator
  \<open>LIKE ? escape '@'\<close>, which the data store (SQLite) evaluates, not this program.
  Its meaning is modelled here. \<open>like_match\<close> is the matching loop: \<open>%\<close> matches any
  sequence of characters, \<open>_\<close> matches any single character, the escape character
  makes the character after it match literally (and a pattern that ends in the escape
  character matches nothing), and two characters match when they are equal up to the
  case of the ASCII letters. \<open>sql_like\<close> is the operator on two strings: a pattern of
  more than 50000 bytes is refused with an error, and pattern and field are read up to
  their first NUL character.
\<close>

definition ascii_fold :: "char \<Rightarrow> char" where
  "ascii_fold c =
     (let k = (of_char c :: nat) in if 65 \<le> k \<and> k \<le> 90 then char_of (k + 32) else c)"

definition like_eq :: "char \<Rightarrow> char \<Rightarrow> bool" where
  "like_eq p c = (ascii_fold p = ascii_fold c)"

fun like_match :: "char \<Rightarrow> string \<Rightarrow> string \<Rightarrow> bool" where
  "like_match e [] s = (s = [])"
| "like_match e (p # ps) s =
     (if p = CHR ''%''
      then like_match e ps s \<or> (case s of [] \<Rightarrow> False | c # cs \<Rightarrow> like_match e (p # ps) cs)
      else if p = e
      then (case ps of [] \<Rightarrow> False
            | q # qs \<Rightarrow> (case s of [] \<Rightarrow> False | c # cs \<Rightarrow> like_eq q c \<and> like_match e qs cs))
      else if p = CHR ''_''
      then (case s of [] \<Rightarrow> False | c # cs \<Rightarrow> like_match e ps cs)
      else (case s of [] \<Rightarrow> False | c # cs \<Rightarrow> like_eq p c \<and> like_match e ps cs))"

text \<open>The length in bytes of the UTF-8 encoding, for code points below 256.\<close>

definition utf8_length :: "string \<Rightarrow> nat" where
  "utf8_length s = sum_list (map (\<lambda>c. if (of_char c :: nat) < 128 then 1 else 2) s)"

definition c_string :: "string \<Rightarrow> string" where
  "c_string s = takeWhile (\<lambda>c. c \<noteq> CHR 0x00) s"

definition sql_like :: "char \<Rightarrow> string \<Rightarrow> string \<Rightarrow> string + bool" where
  "sql_like e pattern field =
     (if utf8_length pattern > 50000 then Inl ''LIKE or GLOB pattern too complex''
      else Inr (like_match e (c_string pattern) (c_string field)))"

text \<open>\<open>contains f s\<close>: the string \<open>s\<close> occurs in the field \<open>f\<close>, character for
  character; \<open>contains_nocase\<close>: it occurs up to the case of the ASCII letters.\<close>

fun contains :: "string \<Rightarrow> string \<Rightarrow> bool" where
  "contains [] s = (s = [])"
| "contains (c # f) s = (take (length s) (c # f) = s \<or> contains f s)"

definition contains_nocase :: "string \<Rightarrow> string \<Rightarrow> bool" where
  "contains_nocase f s = contains (map ascii_fold f) (map ascii_fold s)"

section \<open>Values, output and exits\<close>

text \<open>
  A value of a result row, as the database driver returns it: \<open>None\<close> for NULL, an
  integer, or a string. A row is a tuple of values, modelled as a list.
\<close>

datatype sqlval = SNull | SInt int | SText string

type_synonym row = "sqlval list"

text \<open>
  The exceptions that can leave the program unhandled; \<open>DbError\<close> is whatever the
  driver raises, with its message.
\<close>

datatype exn = TypeError | IndexError | ValueError | DbError string

text \<open>
  How a call ends: it returns, it calls \<open>sys.exit\<close> with a status, or an exception
  propagates to the caller.
\<close>

datatype outcome = Returned | Exited nat | Raised exn

text \<open>
  What the process has done so far: the text written to the output stream and to the
  error stream, and the statements handed to the data store with their parameters.
\<close>

record process =
  stdout :: string
  stderr :: string
  executed :: "(string \<times> sqlval list) list"

definition start :: process where
  "start = \<lparr> stdout = [], stderr = [], executed = [] \<rparr>"

text \<open>
  \<open>cursor.execute(query, parameters).fetchall()\<close>: the data store is a parameter of
  the model; it answers with the rows or with the message of the error it raises.
\<close>

type_synonym db = "string \<Rightarrow> sqlval list \<Rightarrow> string + row list"

text \<open>
  \<open>textwrap.fill(text, width, subsequent_indent=..., break_long_words=...)\<close> is the
  standard library's; the program is modelled over it.
\<close>

type_synonym filler = "string \<Rightarrow> nat \<Rightarrow> string \<Rightarrow> bool \<Rightarrow> string"

definition print :: "string \<Rightarrow> process \<Rightarrow> process" where
  "print s p = p\<lparr>stdout := stdout p @ s @ [nl]\<rparr>"

definition write_err :: "string \<Rightarrow> process \<Rightarrow> process" where
  "write_err s p = p\<lparr>stderr := stderr p @ s\<rparr>"

text \<open>The status with which the process ends; an unhandled exception ends it with 1.\<close>

fun exit_status :: "outcome \<Rightarrow> nat" where
  "exit_status Returned = 0"
| "exit_status (Exited k) = k"
| "exit_status (Raised e) = 1"

subsection \<open>Formatting values\<close>

definition digit_char :: "nat \<Rightarrow> char" where
  "digit_char k = char_of (48 + k)"

function dec_nat :: "nat \<Rightarrow> string" where
  "dec_nat k = (if k < 10 then [digit_char k] else dec_nat (k div 10) @ [digit_char (k mod 10)])"
  by pat_completeness auto
termination
  by (relation "measure (\<lambda>k. k)") auto

definition dec_int :: "int \<Rightarrow> string" where
  "dec_int i = (if i < 0 then ''-'' @ dec_nat (nat (- i)) else dec_nat (nat i))"

text \<open>\<open>str(v)\<close>, which is also what an f-string field without a format gives.\<close>

fun py_str :: "sqlval \<Rightarrow> string" where
  "py_str SNull = ''None''"
| "py_str (SInt i) = dec_int i"
| "py_str (SText s) = s"

definition rjust :: "nat \<Rightarrow> string \<Rightarrow> string" where
  "rjust w s = replicate (w - length s) (CHR '' '') @ s"

text \<open>The f-string field \<open>{v:>w}\<close>; \<open>None\<close> does not accept a format.\<close>

fun format_right :: "nat \<Rightarrow> sqlval \<Rightarrow> exn + string" where
  "format_right w SNull = Inl TypeError"
| "format_right w v = Inr (rjust w (py_str v))"

text \<open>\<open>len(v)\<close>: only a string has a length among the values of a row.\<close>

fun py_len :: "sqlval \<Rightarrow> exn + nat" where
  "py_len (SText s) = Inr (length s)"
| "py_len v = Inl TypeError"

text \<open>\<open>row[i]\<close> for a non-negative index.\<close>

definition item :: "row \<Rightarrow> nat \<Rightarrow> exn + sqlval" where
  "item r i = (if i < length r then Inr (r ! i) else Inl IndexError)"

text \<open>
  \<open>str.isdigit()\<close> on the code points below 256: the decimal digits and the
  superscripts two, three and one; the empty string is not a digit string.
\<close>

definition is_digit :: "char \<Rightarrow> bool" where
  "is_digit c =
     (let k = (of_char c :: nat) in (48 \<le> k \<and> k \<le> 57) \<or> k = 178 \<or> k = 179 \<or> k = 185)"

definition py_isdigit :: "string \<Rightarrow> bool" where
  "py_isdigit s = (s \<noteq> [] \<and> list_all is_digit s)"

text \<open>
  \<open>list(set(xs))\<close> followed by \<open>sort()\<close>. Strings are ordered by code points,
  integers by value; a comparison between \<open>None\<close>, an integer and a string raises
  \<open>TypeError\<close>, and a list of two or more distinct values of mixed kinds cannot be
  sorted without one. The order in which the set is listed does not matter: the sort
  either raises or yields the one sorted list.
\<close>

fun is_text :: "sqlval \<Rightarrow> bool" where
  "is_text (SText s) = True"
| "is_text v = False"

fun is_int :: "sqlval \<Rightarrow> bool" where
  "is_int (SInt i) = True"
| "is_int v = False"

fun text_of :: "sqlval \<Rightarrow> string" where
  "text_of (SText s) = s"
| "text_of v = []"

fun int_of :: "sqlval \<Rightarrow> int" where
  "int_of (SInt i) = i"
| "int_of v = 0"

definition sorted_set :: "sqlval list \<Rightarrow> exn + sqlval list" where
  "sorted_set xs =
     (let ys = remdups xs in
      if length ys \<le> 1 then Inr ys
      else if list_all is_text ys then Inr (map SText (sort (map text_of ys)))
      else if list_all is_int ys then Inr (map SInt (sort (map int_of ys)))
      else Inl TypeError)"

section \<open>The result presenter\<close>

subsection \<open>The table of the list mode\<close>

text \<open>The formatted line of one row, before it is wrapped.\<close>

definition table_line :: "sqlval \<Rightarrow> sqlval \<Rightarrow> sqlval \<Rightarrow> sqlval \<Rightarrow> sqlval \<Rightarrow> exn + string" where
  "table_line classid dept coursenum area title =
     (case format_right 5 classid of Inl e \<Rightarrow> Inl e | Inr c \<Rightarrow>
     (case format_right 4 dept of Inl e \<Rightarrow> Inl e | Inr dp \<Rightarrow>
     (case format_right 6 coursenum of Inl e \<Rightarrow> Inl e | Inr cn \<Rightarrow>
     (case format_right 4 area of Inl e \<Rightarrow> Inl e | Inr ar \<Rightarrow>
        Inr (c @ '' '' @ dp @ '' '' @ cn @ '' '' @ ar @ '' '' @ py_str title)))))"

text \<open>
  The loop of \<open>display_table\<close>. A row that is not a 5-tuple cannot be unpacked
  (\<open>ValueError\<close>); what was printed before an exception stays printed.
\<close>

fun table_rows :: "filler \<Rightarrow> nat \<Rightarrow> row list \<Rightarrow> process \<Rightarrow> outcome \<times> process" where
  "table_rows fill max_len [] p = (Returned, p)"
| "table_rows fill max_len (r # rest) p =
     (case r of
        [classid, dept, coursenum, area, title] \<Rightarrow>
          (case table_line classid dept coursenum area title of
             Inl e \<Rightarrow> (Raised e, p)
           | Inr line \<Rightarrow>
               (case py_len title of
                  Inl e \<Rightarrow> (Raised e, p)
                | Inr k \<Rightarrow>
                    (let len_without_title = length line - k;
                         line' = fill line max_len (replicate len_without_title (CHR '' '')) False
                     in table_rows fill max_len rest (print line' p))))
      | _ \<Rightarrow> (Raised ValueError, p))"

definition display_table :: "filler \<Rightarrow> row list \<Rightarrow> nat \<Rightarrow> process \<Rightarrow> outcome \<times> process" where
  "display_table fill results max_len p =
     (let header = ''ClsId Dept CrsNum Area Title'';
          underline = ''----- ---- ------ ---- -----''
      in table_rows fill max_len results (print underline (print header p)))"

text \<open>
  \<open>search\<close>; \<open>prog\<close> is \<open>sys.argv[0]\<close>. An error of the data store is caught,
  reported and ends the process with status 1.
\<close>

definition search :: "filler \<Rightarrow> string \<Rightarrow> db \<Rightarrow> args \<Rightarrow> process \<Rightarrow> outcome \<times> process" where
  "search fill prog database ar p =
     (let ar' = format_args ar;
          query = get_search_query ar';
          parameters = map SText (search_parameters ar');
          p' = p\<lparr>executed := executed p @ [(query, parameters)]\<rparr>
      in case database query parameters of
           Inl error \<Rightarrow> (Exited 1, write_err (prog @ '': '' @ error) p')
         | Inr results \<Rightarrow> display_table fill results 72 p')"

subsection \<open>The report of the detail mode\<close>

definition details_select :: string where
  "details_select =
     [nl] @ ''        SELECT classes.courseid, days, starttime, endtime, bldg, roomnum, dept, coursenum, area, title, descrip, prereqs, profname'' @
     [nl] @ ''        FROM classes'' @
     [nl] @ ''        INNER JOIN courses ON classes.courseid = courses.courseid'' @
     [nl] @ ''        INNER JOIN crosslistings ON classes.courseid = crosslistings.courseid'' @
     [nl] @ ''        LEFT JOIN coursesprofs ON classes.courseid = coursesprofs.courseid'' @
     [nl] @ ''        LEFT JOIN profs ON coursesprofs.profid = profs.profid'' @
     [nl] @ ''        ''"

definition get_details_query :: string where
  "get_details_query = details_select @ ''WHERE classid = ?'' @ '' ORDER BY dept, coursenum''"

text \<open>
  The loop over the rows in \<open>display_details\<close>: \<open>dept_num\<close> is the text gathered so
  far, and \<open>new_dept_num not in dept_num\<close> is a substring test on that text.
\<close>

fun collect :: "row list \<Rightarrow> string \<Rightarrow> sqlval list \<Rightarrow> exn + (string \<times> sqlval list)" where
  "collect [] dept_num profs = Inr (dept_num, profs)"
| "collect (r # rest) dept_num profs =
     (case item r 6 of Inl e \<Rightarrow> Inl e | Inr c6 \<Rightarrow>
     (case item r 7 of Inl e \<Rightarrow> Inl e | Inr c7 \<Rightarrow>
        (let new_dept_num = py_str c6 @ '' '' @ py_str c7;
             dept_num' = (if \<not> contains dept_num new_dept_num
                          then dept_num @ ''Dept and Number: '' @ new_dept_num @ [nl]
                          else dept_num)
         in (case item r 12 of Inl e \<Rightarrow> Inl e
             | Inr c12 \<Rightarrow> collect rest dept_num' (profs @ [c12])))))"

definition prof_lines :: "sqlval list \<Rightarrow> string" where
  "prof_lines profs = concat (map (\<lambda>curr_prof. ''Professor: '' @ py_str curr_prof @ [nl]) profs)"

text \<open>
  The second half of \<open>display_details\<close>, from the wrapped fields to the
  prerequisites: \<open>res\<close> is the first row and \<open>dept_num\<close> the text that the loop
  gathered. \<open>len(res[11])\<close> raises when the prerequisites are not a string, after the
  fields before them have been printed.
\<close>

definition print_fields :: "filler \<Rightarrow> row \<Rightarrow> string \<Rightarrow> process \<Rightarrow> outcome \<times> process" where
  "print_fields fill res dept_num p =
     (let wrapped_descrip = fill (''Description: '' @ py_str (res ! 10)) 72 [] False;
          wrapped_title = fill (''Title: '' @ py_str (res ! 9)) 72 [] False;
          wrapped_prereqs = fill (''Prerequisites: '' @ py_str (res ! 11)) 72 [] True;
          p1 = print (''Course Id: '' @ py_str (res ! 0) @ [nl]) p;
          p2 = print (''Days: '' @ py_str (res ! 1)) p1;
          p3 = print (''Start time: '' @ py_str (res ! 2)) p2;
          p4 = print (''End time: '' @ py_str (res ! 3)) p3;
          p5 = print (''Building: '' @ py_str (res ! 4)) p4;
          p6 = print (''Room: '' @ py_str (res ! 5) @ [nl]) p5;
          p7 = print dept_num p6;
          p8 = print (''Area: '' @ py_str (res ! 8) @ [nl]) p7;
          p9 = print (wrapped_title @ [nl]) p8;
          p10 = print (wrapped_descrip @ [nl]) p9
      in case py_len (res ! 11) of
           Inl e \<Rightarrow> (Raised e, p10)
         | Inr k \<Rightarrow>
             if k > 0 then (Returned, print (wrapped_prereqs @ [nl]) p10)
             else (Returned, print (''Prerequisites:'' @ [nl]) p10))"

text \<open>
  \<open>display_details\<close>. Only the first row's length is checked; the fields of
  \<open>print_fields\<close> are read from a row of 13 values.
\<close>

definition display_details :: "filler \<Rightarrow> row list \<Rightarrow> process \<Rightarrow> outcome \<times> process" where
  "display_details fill results p =
     (case results of
        [] \<Rightarrow> (Raised IndexError, p)
      | res # _ \<Rightarrow>
          if length res \<noteq> 13
          then (Exited 1, write_err ''Error: Invalid number items in details display'' p)
          else
            (case collect results [] [] of
               Inl e \<Rightarrow> (Raised e, p)
             | Inr (dept_num, all_profs) \<Rightarrow>
                 (case sorted_set all_profs of
                    Inl e \<Rightarrow> (Raised e, p)
                  | Inr profs \<Rightarrow>
                      (let prof_str = drop_last 1 (prof_lines profs)
                       in case print_fields fill res dept_num p of
                            (Returned, p11) \<Rightarrow>
                              (case profs of
                                 [] \<Rightarrow> (Raised IndexError, p11)
                               | first_prof # _ \<Rightarrow>
                                   if first_prof \<noteq> SNull then (Returned, print prof_str p11)
                                   else (Returned, p11))
                          | (out, p') \<Rightarrow> (out, p')))))"

text \<open>
  \<open>get_details\<close>; the class identifier comes from the command line as a string. The
  call of the data store is not inside a \<open>try\<close>: its error propagates.
\<close>

definition get_details :: "filler \<Rightarrow> db \<Rightarrow> string \<Rightarrow> process \<Rightarrow> outcome \<times> process" where
  "get_details fill database class_id p =
     (if \<not> py_isdigit class_id
      then (Exited 1, write_err ''Error: Class ID must be a number'' p)
      else
        (let query = get_details_query;
             parameters = [SText class_id];
             p' = p\<lparr>executed := executed p @ [(query, parameters)]\<rparr>
         in case database query parameters of
              Inl error \<Rightarrow> (Raised (DbError error), p')
            | Inr results \<Rightarrow>
                if length results = 0
                then (Exited 1, write_err (''no class with classid '' @ class_id @ '' exists'') p')
                else display_details fill results p'))"

text \<open>
  \<open>main\<close> of \<open>reg.py\<close>: the connection is opened (\<open>connect\<close> is its result: the
  message of the failure or the data store), the search runs, the connection is
  closed and the process ends with status 0.
\<close>

definition main :: "filler \<Rightarrow> string \<Rightarrow> string + db \<Rightarrow> args \<Rightarrow> outcome \<times> process" where
  "main fill prog connect ar =
     (case connect of
        Inl error \<Rightarrow> (Exited 1, write_err (prog @ '': '' @ error) start)
      | Inr database \<Rightarrow>
          (case search fill prog database ar start of
             (Returned, p) \<Rightarrow> (Exited 0, p)
           | (out, p) \<Rightarrow> (out, p)))"

subsection \<open>An example class\<close>

text \<open>A row of the detail query for one class, with its department, course number
  and professor left open.\<close>

definition cos333 :: "string \<Rightarrow> string \<Rightarrow> sqlval \<Rightarrow> row" where
  "cos333 dept num prof =
     [SInt 9032, SText ''TTh'', SText ''11:00'', SText ''12:20'', SText ''FRIEN'', SText ''006'',
      SText dept, SText num, SText ''QR'', SText ''Advanced Programming Techniques'',
      SText ''Programming in the large'', SText ''COS 217 and COS 226'', prof]"

section \<open>The wrapping of the standard library\<close>

text \<open>
  \<open>display_table\<close> calls \<open>textwrap.fill\<close> with \<open>break_long_words=False\<close> and the
  other options at their defaults. The library's algorithm for that case is modelled
  here. What its word splitter yields is called a chunk; the wrapping takes the
  splitter as an argument \<open>split\<close>, and the library's own splitter is defined below.
\<close>



















subsection \<open>What a wrapped text is\<close>




subsection \<open>The word splitter of the library\<close>










subsection \<open>Where a text may be cut\<close>






section \<open>Properties of the query builder\<close>

lemma py_replace_char:
  "py_replace [c] new s = concat (map (\<lambda>x. if x = c then new else [x]) s)"
  by (induction s) (simp_all add: py_replace_def)

lemma replace_wildcards_concat:
  "replace_wildcards s = concat (map escape_char s)"
  unfolding replace_wildcards_def py_replace_char
  by (induction s) (simp_all add: escape_char_def)

lemma remove_nl: "py_replace [nl] [] s = filter (\<lambda>c. c \<noteq> nl) s"
  unfolding py_replace_char by (induction s) simp_all

lemma truthy_format_value: "truthy (format_value v) = truthy v"
  by (cases v) (simp_all add: format_value_def)

lemma truthy_omit_empty: "truthy (omit_empty v) = truthy v"
  by (cases v) simp_all

lemma format_value_omit_empty: "format_value (omit_empty v) = omit_empty (format_value v)"
  by (cases v) (simp_all add: format_value_def)

lemma where_clause_cases:
  "where_clause ar =
     (if provided ar = [] then []
      else ''WHERE '' @ join_and (map (\<lambda>(column, v). like_predicate column) (provided ar)))"
  by (cases "truthy (d ar)"; cases "truthy (n ar)"; cases "truthy (a ar)"; cases "truthy (t ar)")
     (simp_all add: where_clause_def provided_def filter_columns_def like_predicate_def
        drop_last_def)

lemma search_parameters_provided:
  "search_parameters ar = map (\<lambda>(column, v). the v) (provided ar)"
  by (simp add: search_parameters_def provided_def filter_columns_def)

text \<open>
  Claim C5. Whatever combination of the four filters is given, the list query that
  \<open>get_search_query\<close> builds is the fixed select, then nothing when no filter is
  provided and otherwise \<open>WHERE\<close> with one \<open>LIKE ? escape '@'\<close> predicate per provided
  filter, on its own column, in the order dept, coursenum, area, title and joined by
  \<open>AND\<close>, then \<open>ORDER BY dept, coursenum, classid\<close>; the parameters that \<open>search\<close>
  binds are the provided values in the same order.
\<close>

theorem search_query_refines_spec:
  "get_search_query ar = spec_search_query ar \<and>
   search_parameters ar = spec_search_parameters ar"
  by (simp add: get_search_query_def spec_search_query_def spec_search_parameters_def
        where_clause_cases search_parameters_provided)

text \<open>
  Claim C4. A provided (non-empty) filter string is normalised in this order: each
  \<open>%\<close> and each \<open>_\<close> gets the escape character \<open>@\<close> in front of it, the whole string
  is lowercased, the newline characters are removed, and the result is wrapped in a
  leading and a trailing \<open>%\<close>. A filter that is not provided is left as it is, and
  formatting changes neither the query nor which parameters are bound: the parameters
  are the formatted values of the provided filters and nothing else.
\<close>

theorem format_value_steps:
  "(s \<noteq> [] \<longrightarrow>
      format_value (Some s) =
        Some (''%'' @ filter (\<lambda>c. c \<noteq> nl) (map lower_char (concat (map escape_char s))) @ ''%'')) \<and>
   (\<not> truthy v \<longrightarrow> format_value v = v) \<and>
   get_search_query (format_args ar) = get_search_query ar \<and>
   search_parameters (format_args ar) =
     map (\<lambda>(column, v). the (format_value v)) (provided ar)"
  by (simp add: format_value_def remove_nl replace_wildcards_concat py_lower_def
        get_search_query_def where_clause_def search_parameters_def provided_def
        filter_columns_def format_args_def truthy_format_value)

theorem format_value_steps_witness:
  "''50%_Ab'' \<noteq> [] \<and> format_value (Some ''50%_Ab'') = Some ''%50@%@_ab%'' \<and>
   \<not> truthy (Some []) \<and> format_value (Some []) = Some []"
proof -
  have e: "''%'' @ filter (\<lambda>c. c \<noteq> nl) (map lower_char (concat (map escape_char ''50%_Ab''))) @ ''%''
           = ''%50@%@_ab%''"
    by code_simp
  show ?thesis
    using format_value_steps [of "''50%_Ab''" "Some []"] e by simp
qed

text \<open>
  Claim C10. A filter given as the empty string is treated like an absent one:
  normalisation leaves it unchanged (it does not become \<open>%%\<close>), and the query and the
  parameter list are those of the invocation in which every empty filter is omitted.
\<close>

theorem empty_filter_like_absent:
  "format_value (Some []) = Some [] \<and>
   get_search_query (format_args ar) = get_search_query (format_args (omit_empty_args ar)) \<and>
   search_parameters (format_args ar) = search_parameters (format_args (omit_empty_args ar))"
  by (simp add: format_value_def get_search_query_def where_clause_def search_parameters_def
        format_args_def omit_empty_args_def truthy_format_value truthy_omit_empty
        format_value_omit_empty)
     (cases "d ar"; cases "n ar"; cases "a ar"; cases "t ar"; simp add: format_value_def)

section \<open>Properties of the patterns\<close>

lemma contains_iff: "contains f s \<longleftrightarrow> (\<exists>u w. f = u @ s @ w)"
proof (induction f)
  case Nil
  then show ?case by auto
next
  case (Cons c f)
  have "take (length s) (c # f) = s \<longleftrightarrow> (\<exists>w. c # f = s @ w)"
    by (metis append_eq_conv_conj append_take_drop_id)
  moreover have "(\<exists>u w. c # f = u @ s @ w) \<longleftrightarrow> (\<exists>w. c # f = s @ w) \<or> (\<exists>u w. f = u @ s @ w)"
    by (auto simp: Cons_eq_append_conv)
  ultimately show ?case using Cons.IH by simp
qed

lemma like_percent: "like_match e (CHR ''%'' # q) f \<longleftrightarrow> (\<exists>u r. f = u @ r \<and> like_match e q r)"
proof (induction f)
  case Nil
  then show ?case by simp
next
  case (Cons c f)
  have "(\<exists>u r. c # f = u @ r \<and> like_match e q r) \<longleftrightarrow>
        like_match e q (c # f) \<or> (\<exists>u r. f = u @ r \<and> like_match e q r)"
    by (auto simp: Cons_eq_append_conv)
  then show ?case using Cons.IH by simp
qed

lemma like_literal:
  "CHR ''@'' \<notin> set x \<Longrightarrow>
   like_match (CHR ''@'') (concat (map escape_char x) @ q) f \<longleftrightarrow>
     (\<exists>v r. f = v @ r \<and> map ascii_fold v = map ascii_fold x \<and> like_match (CHR ''@'') q r)"
proof (induction x arbitrary: f)
  case Nil
  then show ?case by simp
next
  case (Cons c x)
  then have IH: "\<And>f. like_match (CHR ''@'') (concat (map escape_char x) @ q) f \<longleftrightarrow>
     (\<exists>v r. f = v @ r \<and> map ascii_fold v = map ascii_fold x \<and> like_match (CHR ''@'') q r)"
    and c: "c \<noteq> CHR ''@''" by auto
  have step: "\<And>f. like_match (CHR ''@'') (concat (map escape_char (c # x)) @ q) f \<longleftrightarrow>
     (case f of [] \<Rightarrow> False
      | b # g \<Rightarrow> like_eq c b \<and> like_match (CHR ''@'') (concat (map escape_char x) @ q) g)"
    using c by (simp add: escape_char_def)
  show ?case
  proof (cases f)
    case Nil
    then show ?thesis unfolding step by simp
  next
    case (Cons b g)
    have "(\<exists>v r. b # g = v @ r \<and> map ascii_fold v = map ascii_fold (c # x) \<and> like_match (CHR ''@'') q r)
          \<longleftrightarrow> ascii_fold c = ascii_fold b \<and>
              (\<exists>v r. g = v @ r \<and> map ascii_fold v = map ascii_fold x \<and> like_match (CHR ''@'') q r)"
      (is "?L \<longleftrightarrow> ?R")
    proof
      assume ?L
      then obtain v r where v: "b # g = v @ r" "map ascii_fold v = map ascii_fold (c # x)"
        "like_match (CHR ''@'') q r" by blast
      from v(2) obtain z zs where z: "v = z # zs" by (cases v) auto
      with v show ?R by auto
    next
      assume ?R
      then obtain v r where "g = v @ r" "map ascii_fold v = map ascii_fold x"
        "like_match (CHR ''@'') q r" "ascii_fold c = ascii_fold b" by blast
      then have "b # g = (b # v) @ r \<and> map ascii_fold (b # v) = map ascii_fold (c # x) \<and>
         like_match (CHR ''@'') q r" by simp
      then show ?L by blast
    qed
    then have eq: "?R \<longleftrightarrow> ?L" by blast
    have "like_match (CHR ''@'') (concat (map escape_char (c # x)) @ q) (b # g) \<longleftrightarrow>
          like_eq c b \<and> like_match (CHR ''@'') (concat (map escape_char x) @ q) g"
      using step [of "b # g"] by simp
    also have "\<dots> \<longleftrightarrow> ?R" by (simp only: IH like_eq_def)
    also note eq
    finally show ?thesis unfolding Cons .
  qed
qed

lemma of_char_lower_char:
  "(of_char (lower_char c) :: nat) =
     (if (65 \<le> (of_char c :: nat) \<and> (of_char c :: nat) \<le> 90) \<or>
         (192 \<le> (of_char c :: nat) \<and> (of_char c :: nat) \<le> 222 \<and> (of_char c :: nat) \<noteq> 215)
      then of_char c + 32 else of_char c)"
  by (simp add: lower_char_def Let_def)

lemma char_eq_of_char: "c = c' \<longleftrightarrow> (of_char c :: nat) = of_char c'"
  by auto

lemma lower_char_special:
  "lower_char c = CHR ''%'' \<longleftrightarrow> c = CHR ''%''"
  "lower_char c = CHR ''_'' \<longleftrightarrow> c = CHR ''_''"
  "lower_char c = CHR ''@'' \<longleftrightarrow> c = CHR ''@''"
  by (simp_all add: char_eq_of_char [of "lower_char c"] char_eq_of_char [of c] of_char_lower_char)

lemma lower_char_fixed:
  "lower_char (CHR ''%'') = CHR ''%''" "lower_char (CHR ''_'') = CHR ''_''"
  "lower_char (CHR ''@'') = CHR ''@''"
  by (simp_all add: lower_char_special)

lemma escape_lower_char:
  "filter (\<lambda>c. c \<noteq> nl) (map lower_char (escape_char c)) =
   concat (map escape_char (filter (\<lambda>c. c \<noteq> nl) [lower_char c]))"
  by (simp add: escape_char_def lower_char_special lower_char_fixed nl_def)

lemma escape_lower_commute:
  "filter (\<lambda>c. c \<noteq> nl) (map lower_char (concat (map escape_char s))) =
   concat (map escape_char (filter (\<lambda>c. c \<noteq> nl) (map lower_char s)))"
proof (induction s)
  case Nil
  show ?case by simp
next
  case (Cons c s)
  have "filter (\<lambda>c. c \<noteq> nl) (map lower_char (concat (map escape_char (c # s)))) =
        filter (\<lambda>c. c \<noteq> nl) (map lower_char (escape_char c)) @
        filter (\<lambda>c. c \<noteq> nl) (map lower_char (concat (map escape_char s)))"
    by simp
  also have "\<dots> = concat (map escape_char (filter (\<lambda>c. c \<noteq> nl) [lower_char c])) @
        concat (map escape_char (filter (\<lambda>c. c \<noteq> nl) (map lower_char s)))"
    by (simp only: escape_lower_char Cons.IH)
  also have "\<dots> = concat (map escape_char (filter (\<lambda>c. c \<noteq> nl) (map lower_char (c # s))))"
    by simp
  finally show ?case .
qed

lemma contains_nocase_iff:
  "contains_nocase f x \<longleftrightarrow> (\<exists>u v w. f = u @ v @ w \<and> map ascii_fold v = map ascii_fold x)"
proof
  assume "contains_nocase f x"
  then obtain u' w' where "map ascii_fold f = u' @ (map ascii_fold x @ w')"
    unfolding contains_nocase_def contains_iff by blast
  then have "\<exists>us vs. f = us @ vs \<and> u' = map ascii_fold us \<and>
               map ascii_fold x @ w' = map ascii_fold vs"
    by (simp only: map_eq_append_conv)
  then obtain u r where f: "f = u @ r" and r: "map ascii_fold x @ w' = map ascii_fold r"
    by blast
  from r have "\<exists>us vs. r = us @ vs \<and> map ascii_fold x = map ascii_fold us \<and>
               w' = map ascii_fold vs"
    by (simp only: append_eq_map_conv)
  then obtain v w where "r = v @ w" "map ascii_fold v = map ascii_fold x"
    by metis
  with f show "\<exists>u v w. f = u @ v @ w \<and> map ascii_fold v = map ascii_fold x" by blast
next
  assume "\<exists>u v w. f = u @ v @ w \<and> map ascii_fold v = map ascii_fold x"
  then obtain u v w where "f = u @ v @ w" "map ascii_fold v = map ascii_fold x" by blast
  then have "map ascii_fold f = map ascii_fold u @ map ascii_fold x @ map ascii_fold w" by simp
  then show "contains_nocase f x"
    unfolding contains_nocase_def contains_iff by blast
qed

lemma like_percent_only: "like_match e ''%'' r"
  by (simp only: like_percent) simp

lemma like_wrapped:
  assumes "CHR ''@'' \<notin> set x"
  shows "like_match (CHR ''@'') (''%'' @ concat (map escape_char x) @ ''%'') f \<longleftrightarrow>
         contains_nocase f x"
proof -
  have "like_match (CHR ''@'') (''%'' @ concat (map escape_char x) @ ''%'') f \<longleftrightarrow>
        (\<exists>u r. f = u @ r \<and> like_match (CHR ''@'') (concat (map escape_char x) @ ''%'') r)"
    using like_percent [of "CHR ''@''" "concat (map escape_char x) @ ''%''" f] by simp
  also have "\<dots> \<longleftrightarrow> (\<exists>u r. f = u @ r \<and> (\<exists>v w. r = v @ w \<and> map ascii_fold v = map ascii_fold x))"
    by (simp only: like_literal [OF assms] like_percent_only simp_thms)
  also have "\<dots> \<longleftrightarrow> contains_nocase f x"
    unfolding contains_nocase_iff by blast
  finally show ?thesis .
qed

text \<open>
  Where the filter has no escape character in it, the escaped and wrapped string does
  what the escaping is for (\<open>like_wrapped\<close> above). Claim C3 says so for every filter
  string: the pattern matches a field exactly when the field contains the filter as a
  literal substring, and \<open>%\<close> and \<open>_\<close> in the input never widen the match.
  \<open>replace_wildcards\<close> escapes \<open>%\<close> and \<open>_\<close> but not the escape character \<open>@\<close>
  itself, and the claim fails on filters that contain it. The filter \<open>a@b\<close> is bound
  as \<open>%a@b%\<close>, in which \<open>@b\<close> is an escaped \<open>b\<close>: it does not match the field \<open>a@b\<close>,
  which contains the filter, and it matches the field \<open>ab\<close>, which does not. The
  filter \<open>@%\<close> is bound as \<open>%@@%%\<close>, an escaped \<open>@\<close> followed by a \<open>%\<close> that is a
  wildcard again: it matches the field \<open>x@y\<close>, which does not contain \<open>@%\<close>.
\<close>

theorem escape_character_not_escaped:
  "format_value (Some ''a@b'') = Some ''%a@b%'' \<and>
   sql_like (CHR ''@'') ''%a@b%'' ''a@b'' = Inr False \<and> contains ''a@b'' ''a@b'' \<and>
   sql_like (CHR ''@'') ''%a@b%'' ''ab'' = Inr True \<and> \<not> contains ''ab'' ''a@b'' \<and>
   format_value (Some ''@%'') = Some ''%@@%%'' \<and>
   sql_like (CHR ''@'') ''%@@%%'' ''x@y'' = Inr True \<and> \<not> contains ''x@y'' ''@%''"
proof -
  have short: "\<not> utf8_length ''%a@b%'' > 50000" "\<not> utf8_length ''%@@%%'' > 50000"
    by (simp_all add: utf8_length_def)
  have cs: "c_string ''%a@b%'' = ''%a@b%''" "c_string ''%@@%%'' = ''%@@%%''"
    "c_string ''a@b'' = ''a@b''" "c_string ''ab'' = ''ab''" "c_string ''x@y'' = ''x@y''"
    by (simp_all add: c_string_def)
  have m: "\<not> like_match (CHR ''@'') ''%a@b%'' ''a@b''" "like_match (CHR ''@'') ''%a@b%'' ''ab''"
    "like_match (CHR ''@'') ''%@@%%'' ''x@y''"
    by code_simp+
  have f: "format_value (Some ''a@b'') = Some ''%a@b%''" "format_value (Some ''@%'') = Some ''%@@%%''"
    by code_simp+
  have c: "contains ''a@b'' ''a@b''" "\<not> contains ''ab'' ''a@b''" "\<not> contains ''x@y'' ''@%''"
    by code_simp+
  show ?thesis
    by (simp only: sql_like_def short cs m f c if_False simp_thms)
qed

section \<open>Properties of the two lookups\<close>

text \<open>
  Claim C6. When the class identifier given to the detail lookup is not made of digit
  characters only, \<open>get_details\<close> writes an error message to the error stream and
  exits with status 1; no statement has been handed to the data store and nothing has
  been printed. (The digit characters are those of \<open>str.isdigit\<close>.)
\<close>

theorem non_digit_class_id_rejected:
  assumes "\<not> list_all is_digit class_id"
  shows "get_details fill database class_id p =
           (Exited 1, p\<lparr>stderr := stderr p @ ''Error: Class ID must be a number''\<rparr>) \<and>
         executed (snd (get_details fill database class_id p)) = executed p \<and>
         stdout (snd (get_details fill database class_id p)) = stdout p \<and>
         exit_status (fst (get_details fill database class_id p)) \<noteq> 0"
  using assms by (simp add: get_details_def py_isdigit_def write_err_def)

theorem non_digit_class_id_rejected_witness:
  "\<not> list_all is_digit ''abc'' \<and>
   get_details (\<lambda>text width indent break_long. text) (\<lambda>query parameters. Inr []) ''abc'' start =
     (Exited 1, \<lparr> stdout = [], stderr = ''Error: Class ID must be a number'', executed = [] \<rparr>)"
proof -
  have h: "\<not> list_all is_digit ''abc''" by code_simp
  show ?thesis
    using non_digit_class_id_rejected [OF h, of "\<lambda>text width indent break_long. text"
        "\<lambda>query parameters. Inr []" start] h
    by (simp add: start_def)
qed

text \<open>
  Claim C2 says that an error raised by the data store during a detail lookup is
  written to the error stream and ends the process with a non-zero status instead of
  propagating. \<open>search\<close> does this; \<open>get_details\<close> calls the data store outside any
  \<open>try\<close>, so the exception propagates and nothing is written to the error stream.
  Both calls are evaluated here on a data store that raises.
\<close>

theorem get_details_error_propagates:
  "get_details (\<lambda>text width indent break_long. text) (\<lambda>query parameters. Inl ''no such table: classes'') ''1'' start =
     (Raised (DbError ''no such table: classes''),
      \<lparr> stdout = [], stderr = [], executed = [(get_details_query, [SText ''1''])] \<rparr>) \<and>
   search (\<lambda>text width indent break_long. text) ''reg.py'' (\<lambda>query parameters. Inl ''no such table: classes'')
       \<lparr> d = None, n = None, a = None, t = None \<rparr> start =
     (Exited 1,
      \<lparr> stdout = [], stderr = ''reg.py: no such table: classes'',
        executed = [(get_search_query \<lparr> d = None, n = None, a = None, t = None \<rparr>, [])] \<rparr>)"
proof -
  have "py_isdigit ''1''" by code_simp
  then show ?thesis
    by (simp add: get_details_def search_def start_def write_err_def format_args_def
          format_value_def search_parameters_def)
qed

text \<open>
  Claim C7. A result of zero rows is treated differently in the two modes. In the
  list mode it is not an error: \<open>search\<close> prints the header and the underline and
  returns, nothing is written to the error stream, and the process ends with
  status 0. In the detail mode it is fatal: \<open>get_details\<close> writes
  \<open>no class with classid <id> exists\<close> to the error stream and exits with status 1,
  having printed nothing.
\<close>

theorem zero_rows:
  "(database (get_search_query (format_args ar)) (map SText (search_parameters (format_args ar))) = Inr []
      \<longrightarrow> search fill prog database ar p =
            (Returned,
             p\<lparr>executed := executed p @ [(get_search_query (format_args ar),
                                          map SText (search_parameters (format_args ar)))],
               stdout := stdout p @ ''ClsId Dept CrsNum Area Title'' @ [nl] @
                                    ''----- ---- ------ ---- -----'' @ [nl]\<rparr>) \<and>
          stderr (snd (search fill prog database ar p)) = stderr p \<and>
          exit_status (fst (main fill prog (Inr database) ar)) = 0) \<and>
   (py_isdigit class_id \<and> database get_details_query [SText class_id] = Inr []
      \<longrightarrow> get_details fill database class_id p =
            (Exited 1,
             p\<lparr>executed := executed p @ [(get_details_query, [SText class_id])],
               stderr := stderr p @ ''no class with classid '' @ class_id @ '' exists''\<rparr>) \<and>
          stdout (snd (get_details fill database class_id p)) = stdout p \<and>
          exit_status (fst (get_details fill database class_id p)) \<noteq> 0)"
  by (simp add: search_def display_table_def print_def get_details_def write_err_def main_def
        start_def Let_def)

theorem zero_rows_witness:
  "search (\<lambda>text width indent break_long. text) ''reg.py'' (\<lambda>query parameters. Inr []) \<lparr> d = Some ''zzz'', n = None, a = None, t = None \<rparr> start =
     (Returned,
      \<lparr> stdout = ''ClsId Dept CrsNum Area Title'' @ [nl] @ ''----- ---- ------ ---- -----'' @ [nl],
        stderr = [],
        executed = [(get_search_query \<lparr> d = Some ''%zzz%'', n = None, a = None, t = None \<rparr>,
                     [SText ''%zzz%''])] \<rparr>) \<and>
   py_isdigit ''999999'' \<and>
   get_details (\<lambda>text width indent break_long. text) (\<lambda>query parameters. Inr []) ''999999'' start =
     (Exited 1,
      \<lparr> stdout = [], stderr = ''no class with classid 999999 exists'',
        executed = [(get_details_query, [SText ''999999''])] \<rparr>)"
proof -
  have h: "py_isdigit ''999999''" by code_simp
  have f: "format_args \<lparr> d = Some ''zzz'', n = None, a = None, t = None \<rparr> =
           \<lparr> d = Some ''%zzz%'', n = None, a = None, t = None \<rparr>"
    by code_simp
  show ?thesis
    using zero_rows [of "\<lambda>query parameters. Inr []"
        "\<lparr> d = Some ''zzz'', n = None, a = None, t = None \<rparr>"
        "\<lambda>text width indent break_long. text" "''reg.py''" start "''999999''"] h
    by (simp add: f start_def search_parameters_def)
qed

section \<open>Properties of the detail report\<close>

text \<open>
  Claim C1 says that the report has one \<open>Dept and Number:\<close> line for each distinct
  pair of department and number. The loop of \<open>display_details\<close> tests
  \<open>new_dept_num not in dept_num\<close> on the text gathered so far, which is a substring
  test: a pair whose text occurs inside an earlier line is dropped although it is a
  different pair. For a class listed as \<open>COS 333\<close> and as \<open>OS 33\<close> (the order in
  which the query returns them) only the first line is produced.
\<close>

theorem dept_line_dropped:
  "collect [cos333 ''COS'' ''333'' SNull, cos333 ''OS'' ''33'' SNull] [] [] =
     Inr (''Dept and Number: COS 333'' @ [nl], [SNull, SNull])"
  by code_simp

lemma collect_profs:
  "\<forall>r\<in>set results. length r = 13 \<Longrightarrow>
   \<exists>dept_num. collect results dn ps = Inr (dept_num, ps @ map (\<lambda>r. r ! 12) results)"
proof (induction results arbitrary: dn ps)
  case Nil
  then show ?case by simp
next
  case (Cons r results)
  then have len: "length r = 13" and rest: "\<forall>r\<in>set results. length r = 13" by simp_all
  have "\<And>dn'. \<exists>dept_num. collect results dn' (ps @ [r ! 12]) =
          Inr (dept_num, ps @ r ! 12 # map (\<lambda>r. r ! 12) results)"
    using Cons.IH [OF rest, of _ "ps @ [r ! 12]"] by simp
  then show ?case
    using len by (simp add: item_def Let_def)
qed

lemma sorted_set_texts:
  "sorted_set (map SText names) = Inr (map SText (sort (remdups names)))"
proof -
  have rd: "remdups (map SText names) = map SText (remdups names)"
    by (induction names) auto
  have all: "list_all is_text (map SText (remdups names))"
    by (simp add: list_all_iff)
  have c: "text_of \<circ> SText = id" by (rule ext) simp
  have istxt: "map text_of (map SText (remdups names)) = remdups names"
    by (simp add: c)
  show ?thesis
  proof (cases "length (remdups names) \<le> 1")
    case True
    then have "sort (remdups names) = remdups names"
      by (cases "remdups names") (auto simp: le_Suc_eq)
    with True show ?thesis by (simp add: sorted_set_def rd)
  next
    case False
    then show ?thesis by (simp add: sorted_set_def rd all c Let_def)
  qed
qed

lemma sorted_set_nulls:
  "xs \<noteq> [] \<Longrightarrow> \<forall>x\<in>set xs. x = SNull \<Longrightarrow> sorted_set xs = Inr [SNull]"
proof -
  assume a: "xs \<noteq> []" "\<forall>x\<in>set xs. x = SNull"
  have "remdups xs = [SNull]" using a
  proof (induction xs)
    case Nil
    then show ?case by simp
  next
    case (Cons x xs)
    then show ?case by (cases xs) auto
  qed
  then show ?thesis by (simp add: sorted_set_def)
qed

lemma drop_last_snoc: "drop_last 1 (s @ [c]) = s"
  by (simp add: drop_last_def)

lemma prof_lines_print:
  "profs \<noteq> [] \<Longrightarrow> drop_last 1 (prof_lines profs) @ [nl] = prof_lines profs"
proof (induction profs rule: rev_induct)
  case Nil
  then show ?case by simp
next
  case (snoc x xs)
  have "prof_lines (xs @ [x]) = (prof_lines xs @ ''Professor: '' @ py_str x) @ [nl]"
    by (simp add: prof_lines_def)
  then show ?case by (simp only: drop_last_snoc)
qed

lemma print_fields_returns:
  "is_text (res ! 11) \<Longrightarrow> fst (print_fields fill res dept_num p) = Returned"
  by (cases "res ! 11") (simp_all add: print_fields_def Let_def)

text \<open>Names and the absent marker together cannot be sorted.\<close>

lemma sorted_set_mixed: "sorted_set [SText ''Brian Kernighan'', SNull] = Inl TypeError"
  by (simp add: sorted_set_def)

text \<open>
  Claim C8. For the rows of one class (each a row of 13 values, the prerequisites of
  the first being a string), the report ends as follows. When every row carries a
  professor name, the report returns normally and, after the fields up to the
  prerequisites, prints one \<open>Professor:\<close> line per distinct name, in sorted order.
  When no row carries a professor (the only entry is the absent marker), it prints no
  \<open>Professor:\<close> line at all. (Rows that mix names and the absent marker cannot be
  sorted; they do not come from a class that either has professors or has none.)
\<close>

theorem professor_lines:
  assumes "results \<noteq> []" and "\<forall>r\<in>set results. length r = 13"
    and "is_text (hd results ! 11)"
  shows "\<exists>dept_num q.
           print_fields fill (hd results) dept_num p = (Returned, q) \<and>
           ((\<forall>r\<in>set results. is_text (r ! 12)) \<longrightarrow>
              display_details fill results p =
                (Returned,
                 q\<lparr>stdout := stdout q @
                    concat (map (\<lambda>name. ''Professor: '' @ name @ [nl])
                             (sort (remdups (map (\<lambda>r. text_of (r ! 12)) results))))\<rparr>)) \<and>
           ((\<forall>r\<in>set results. r ! 12 = SNull) \<longrightarrow>
              display_details fill results p = (Returned, q))"
proof -
  from assms(1) obtain res rest where results: "results = res # rest" by (cases results) auto
  with assms have len: "length res = 13" and istxt: "is_text (res ! 11)" by simp_all
  from collect_profs [OF assms(2), of "[]" "[]"] obtain dept_num where
    coll: "collect results [] [] = Inr (dept_num, map (\<lambda>r. r ! 12) results)" by auto
  obtain q where pf: "print_fields fill res dept_num p = (Returned, q)"
    using print_fields_returns [OF istxt, of fill dept_num p]
    by (cases "print_fields fill res dept_num p") auto
  have A: "display_details fill results p =
                (Returned,
                 q\<lparr>stdout := stdout q @
                    concat (map (\<lambda>name. ''Professor: '' @ name @ [nl])
                             (sort (remdups (map (\<lambda>r. text_of (r ! 12)) results))))\<rparr>)"
    if all: "\<forall>r\<in>set results. is_text (r ! 12)"
  proof -
    let ?names = "map (\<lambda>r. text_of (r ! 12)) results"
    let ?profs = "map SText (sort (remdups ?names))"
    have eq: "r ! 12 = SText (text_of (r ! 12))" if "r \<in> set results" for r
    proof -
      from that all have "is_text (r ! 12)" by blast
      then show ?thesis by (cases "r ! 12") simp_all
    qed
    have "map (\<lambda>r. r ! 12) results = map (\<lambda>r. SText (text_of (r ! 12))) results"
      by (rule map_cong, rule refl, erule eq)
    also have "\<dots> = map SText ?names" by simp
    finally have "map (\<lambda>r. r ! 12) results = map SText ?names" .
    then have ss: "sorted_set (map (\<lambda>r. r ! 12) results) = Inr ?profs"
      by (simp only: sorted_set_texts)
    have "sort (remdups ?names) \<noteq> []"
    proof
      assume "sort (remdups ?names) = []"
      then have "length (sort (remdups ?names)) = 0" by simp
      then have "remdups ?names = []" by (simp only: length_sort length_0_conv)
      then show False using assms(1) by simp
    qed
    then have ne: "?profs \<noteq> []" by simp
    then obtain first_prof more where fp: "?profs = SText first_prof # more"
      by (cases "sort (remdups ?names)") auto
    have pl: "prof_lines ?profs =
              concat (map (\<lambda>name. ''Professor: '' @ name @ [nl]) (sort (remdups ?names)))"
      by (simp add: prof_lines_def comp_def)
    have "display_details fill results p = (Returned, print (drop_last 1 (prof_lines ?profs)) q)"
      unfolding display_details_def results [symmetric]
      using results len coll ss pf fp by (simp add: Let_def)
    also have "print (drop_last 1 (prof_lines ?profs)) q = q\<lparr>stdout := stdout q @ prof_lines ?profs\<rparr>"
      using prof_lines_print [OF ne] by (simp add: print_def)
    finally show ?thesis by (simp only: pl)
  qed
  have B: "display_details fill results p = (Returned, q)"
    if all: "\<forall>r\<in>set results. r ! 12 = SNull"
  proof -
    have "sorted_set (map (\<lambda>r. r ! 12) results) = Inr [SNull]"
      using sorted_set_nulls [of "map (\<lambda>r. r ! 12) results"] all assms(1) by simp
    then show ?thesis
      unfolding display_details_def
      using results len coll pf by (simp add: Let_def)
  qed
  from pf A B show ?thesis using results by auto
qed

theorem professor_lines_witness:
  "(\<exists>q. display_details (\<lambda>text width indent break_long. text)
          [cos333 ''COS'' ''333'' (SText ''Robert Dondero''),
           cos333 ''COS'' ''333'' (SText ''Brian Kernighan''),
           cos333 ''EGR'' ''333'' (SText ''Robert Dondero''),
           cos333 ''EGR'' ''333'' (SText ''Brian Kernighan'')] start =
        (Returned, q\<lparr>stdout := stdout q @ ''Professor: Brian Kernighan'' @ [nl] @
                                          ''Professor: Robert Dondero'' @ [nl]\<rparr>)) \<and>
   (\<exists>dept_num q.
      print_fields (\<lambda>text width indent break_long. text) (cos333 ''COS'' ''333'' SNull) dept_num start
        = (Returned, q) \<and>
      display_details (\<lambda>text width indent break_long. text)
          [cos333 ''COS'' ''333'' SNull, cos333 ''EGR'' ''333'' SNull] start = (Returned, q))"
proof -
  let ?F = "\<lambda>(text :: string) (width :: nat) (indent :: string) (break_long :: bool). text"
  let ?rows = "[cos333 ''COS'' ''333'' (SText ''Robert Dondero''),
           cos333 ''COS'' ''333'' (SText ''Brian Kernighan''),
           cos333 ''EGR'' ''333'' (SText ''Robert Dondero''),
           cos333 ''EGR'' ''333'' (SText ''Brian Kernighan'')]"
  let ?none = "[cos333 ''COS'' ''333'' SNull, cos333 ''EGR'' ''333'' SNull]"
  have h: "?rows \<noteq> []" "\<forall>r\<in>set ?rows. length r = 13" "is_text (hd ?rows ! 11)"
    by (simp_all add: cos333_def)
  have a: "\<forall>r\<in>set ?rows. is_text (r ! 12)" by (simp add: cos333_def)
  have s: "sort (remdups (map (\<lambda>r. text_of (r ! 12)) ?rows)) =
           [''Brian Kernighan'', ''Robert Dondero'']"
    by code_simp
  have h0: "?none \<noteq> []" "\<forall>r\<in>set ?none. length r = 13" "is_text (hd ?none ! 11)"
    by (simp_all add: cos333_def)
  have b: "\<forall>r\<in>set ?none. r ! 12 = SNull" by (simp add: cos333_def)
  from professor_lines [OF h, of ?F start] a
  have one: "\<exists>q. display_details ?F ?rows start =
        (Returned, q\<lparr>stdout := stdout q @ ''Professor: Brian Kernighan'' @ [nl] @
                                          ''Professor: Robert Dondero'' @ [nl]\<rparr>)"
    unfolding s by auto
  from professor_lines [OF h0, of ?F start] b
  have two: "\<exists>dept_num q.
      print_fields ?F (cos333 ''COS'' ''333'' SNull) dept_num start = (Returned, q) \<and>
      display_details ?F ?none start = (Returned, q)"
    by auto
  from one two show ?thesis by blast
qed

section \<open>Properties of the table\<close>





















end
